theory Spec2Isabelle
  imports Complex_Main
begin

section \<open>Exceptions of the Python code and of its libraries\<close>

text \<open>
  Every exception the modelled code can raise is a value. \<open>ValueError\<close> is what
  \<open>min\<close> raises on an empty list and what numpy and scipy raise on operands whose
  shapes do not fit; \<open>IndexError\<close> is \<open>random.choice\<close> on an empty list; \<open>KeyError\<close> is a
  lookup \<open>G[u][v]\<close> of an absent edge; \<open>NodeNotFound\<close>, \<open>NetworkXNoPath\<close> and
  \<open>NetworkXError\<close> are networkx's exceptions for a node that is not in the graph, for
  a target that cannot be reached, and for the removal of an absent edge.
\<close>

datatype error = ValueError | IndexError | KeyError | NodeNotFound | NetworkXNoPath | NetworkXError

section \<open>Profile vectors (closest\_nodes/good\_neighbors.py)\<close>

text \<open>
  A profile vector is a Python list of edge weights. The lists are mutable objects and
  \<open>closest_node\<close> and \<open>graphs2bipartite_weight\<close> append to them in place, so the model
  keeps them in a store: an address stands for one list object, a neighbour list
  (\<open>nl1\<close>, \<open>nei1\<close>, ...) is a list of addresses, and two positions that hold the same
  address are the same object. Numbers are exact reals; the rounding of floating point
  is not modelled.
\<close>

type_synonym addr = nat
type_synonym store = "addr \<Rightarrow> real list"

text \<open>
  \<open>scipy.spatial.distance.euclidean\<close>: the 2-norm of the difference. Operands of
  different lengths are reported as a \<open>ValueError\<close>.
\<close>

definition euclidean :: "real list \<Rightarrow> real list \<Rightarrow> error + real" where
  "euclidean u v =
     (if length u = length v
      then Inr (sqrt (\<Sum>(x, y)\<leftarrow>zip u v. (x - y)\<^sup>2))
      else Inl ValueError)"

text \<open>
  \<open>[i.append(0) for k in range(n)]\<close>: the object at address \<open>a\<close> grows by \<open>n\<close> zeros.
  The callers pass a difference of two lengths; where Python's \<open>range\<close> of a negative
  number is empty, the subtraction on \<open>nat\<close> gives \<open>0\<close> and nothing is appended either.
\<close>

definition append_zeros :: "store \<Rightarrow> addr \<Rightarrow> nat \<Rightarrow> store" where
  "append_zeros s a n = s(a := s a @ replicate n 0)"

text \<open>Lines 87 to 94 of \<open>closest_node\<close>: the padding of one comparison and its distance.\<close>

definition cn_pad :: "store \<Rightarrow> addr \<Rightarrow> addr \<Rightarrow> store" where
  "cn_pad s i j =
     (if length (s i) = length (s j) then s
      else if length (s i) < length (s j)
        then append_zeros s i (length (s j) - length (s i))
        else append_zeros s j (length (s i) - length (s j)))"

definition cn_dist :: "store \<Rightarrow> addr \<Rightarrow> addr \<Rightarrow> store \<times> (error + real)" where
  "cn_dist s i j = (let s' = cn_pad s i j in (s', euclidean (s' i) (s' j)))"

text \<open>\<open>min(dist_list)\<close> and \<open>dist_list.index(m)\<close>.\<close>

fun py_min :: "real list \<Rightarrow> error + real" where
  "py_min [] = Inl ValueError"
| "py_min (x # xs) = Inr (fold min xs x)"

fun py_index :: "real list \<Rightarrow> real \<Rightarrow> error + nat" where
  "py_index [] m = Inl ValueError"
| "py_index (x # xs) m =
     (if x = m then Inr 0
      else case py_index xs m of Inl e \<Rightarrow> Inl e | Inr k \<Rightarrow> Inr (Suc k))"

text \<open>The inner loop \<open>for j in nl2\<close> of \<open>closest_node\<close>, with \<open>dist_list\<close> as accumulator.\<close>

fun cn_inner :: "store \<Rightarrow> addr \<Rightarrow> addr list \<Rightarrow> real list \<Rightarrow> error + (store \<times> real list)" where
  "cn_inner s i [] dist_list = Inr (s, dist_list)"
| "cn_inner s i (j # js) dist_list =
     (case cn_dist s i j of
        (s', Inl e) \<Rightarrow> Inl e
      | (s', Inr d) \<Rightarrow> cn_inner s' i js (dist_list @ [d]))"

text \<open>The outer loop \<open>for i in nl1\<close>, with \<open>count\<close> and \<open>closest_node_list\<close>.\<close>

fun cn_outer ::
  "store \<Rightarrow> addr list \<Rightarrow> addr list \<Rightarrow> nat \<Rightarrow> (nat \<times> nat) list \<Rightarrow> error + (store \<times> (nat \<times> nat) list)"
where
  "cn_outer s [] nl2 count closest_node_list = Inr (s, closest_node_list)"
| "cn_outer s (i # is) nl2 count closest_node_list =
     (case cn_inner s i nl2 [] of
        Inl e \<Rightarrow> Inl e
      | Inr (s', dist_list) \<Rightarrow>
          (case py_min dist_list of
             Inl e \<Rightarrow> Inl e
           | Inr m \<Rightarrow>
               (case py_index dist_list m of
                  Inl e \<Rightarrow> Inl e
                | Inr k \<Rightarrow> cn_outer s' is nl2 (count + 1) (closest_node_list @ [(count, k)]))))"

text \<open>
  \<open>closest_node(nl1, nl2)\<close>: the result is the store after the call and the returned
  list of pairs \<open>[count, index]\<close>.
\<close>

definition closest_node :: "store \<Rightarrow> addr list \<Rightarrow> addr list \<Rightarrow> error + (store \<times> (nat \<times> nat) list)" where
  "closest_node s nl1 nl2 = cn_outer s nl1 nl2 0 []"

section \<open>Graphs of networkx\<close>

text \<open>
  An undirected \<open>nx.Graph\<close> with a \<open>weight\<close> on every edge: the set of its nodes and,
  for every ordered pair of nodes, the weight of the edge between them if there is
  one. networkx keeps an undirected edge under both orders, and so do \<open>add_edge\<close> and
  \<open>remove_edge\<close> here.
\<close>

record graph =
  nodes :: "int set"
  adj :: "int \<times> int \<Rightarrow> real option"

definition empty_graph :: graph where
  "empty_graph = \<lparr>nodes = {}, adj = (\<lambda>e. None)\<rparr>"

definition add_node :: "graph \<Rightarrow> int \<Rightarrow> graph" where
  "add_node G n = G\<lparr>nodes := insert n (nodes G)\<rparr>"

definition add_edge :: "graph \<Rightarrow> int \<Rightarrow> int \<Rightarrow> real \<Rightarrow> graph" where
  "add_edge G u v w =
     G\<lparr>nodes := insert u (insert v (nodes G)), adj := (adj G)((u, v) \<mapsto> w, (v, u) \<mapsto> w)\<rparr>"

definition remove_edge :: "graph \<Rightarrow> int \<Rightarrow> int \<Rightarrow> error + graph" where
  "remove_edge G u v =
     (case adj G (u, v) of
        None \<Rightarrow> Inl NetworkXError
      | Some w \<Rightarrow> Inr (G\<lparr>adj := (adj G)((u, v) := None, (v, u) := None)\<rparr>))"

section \<open>The bipartite similarity graph (graphs2bipartite\_weight)\<close>

definition bp_weight :: "real \<Rightarrow> real" where
  "bp_weight d = 1 / (d + 0.001)"

text \<open>Lines 114 to 118: the padding of the second \<open>if\<close>/\<open>else\<close>.\<close>

definition bp_pad :: "store \<Rightarrow> addr \<Rightarrow> addr \<Rightarrow> store" where
  "bp_pad s node_i node_j =
     (if length (s node_i) < length (s node_j)
      then append_zeros s node_i (length (s node_j) - length (s node_i))
      else append_zeros s node_j (length (s node_i) - length (s node_j)))"

definition bp_dist :: "store \<Rightarrow> addr \<Rightarrow> addr \<Rightarrow> store \<times> (error + real)" where
  "bp_dist s node_i node_j = (let s' = bp_pad s node_i node_j in (s', euclidean (s' node_i) (s' node_j)))"

text \<open>
  Lines 110 to 119, the body of the two loops. The first \<open>if\<close> is not chained to the
  second: on vectors of equal length the edge is added there, and once more by the
  \<open>else\<close> branch, which then pads by nothing.
\<close>

definition bp_body :: "store \<Rightarrow> graph \<Rightarrow> nat \<Rightarrow> nat \<Rightarrow> addr \<Rightarrow> addr \<Rightarrow> error + (store \<times> graph)" where
  "bp_body s G i j node_i node_j =
     (case (if length (s node_i) = length (s node_j)
            then (case euclidean (s node_i) (s node_j) of
                    Inl e \<Rightarrow> Inl e
                  | Inr d \<Rightarrow> Inr (add_edge G (int i + 1) (- int j - 1) (bp_weight d)))
            else Inr G) of
        Inl e \<Rightarrow> Inl e
      | Inr G' \<Rightarrow>
          (case bp_dist s node_i node_j of
             (s', Inl e) \<Rightarrow> Inl e
           | (s', Inr d) \<Rightarrow> Inr (s', add_edge G' (int i + 1) (- int j - 1) (bp_weight d))))"

fun bp_inner :: "store \<Rightarrow> graph \<Rightarrow> nat \<Rightarrow> addr \<Rightarrow> (nat \<times> addr) list \<Rightarrow> error + (store \<times> graph)" where
  "bp_inner s G i node_i [] = Inr (s, G)"
| "bp_inner s G i node_i ((j, node_j) # js) =
     (case bp_body s G i j node_i node_j of
        Inl e \<Rightarrow> Inl e
      | Inr (s', G') \<Rightarrow> bp_inner s' G' i node_i js)"

fun bp_outer :: "store \<Rightarrow> graph \<Rightarrow> (nat \<times> addr) list \<Rightarrow> addr list \<Rightarrow> error + (store \<times> graph)" where
  "bp_outer s G [] nei2 = Inr (s, G)"
| "bp_outer s G ((i, node_i) # is) nei2 =
     (case bp_inner s G i node_i (enumerate 0 nei2) of
        Inl e \<Rightarrow> Inl e
      | Inr (s', G') \<Rightarrow> bp_outer s' G' is nei2)"

text \<open>
  \<open>graphs2bipartite_weight(nei1, nei2)\<close>. The loops run over \<open>range(len(nei1))\<close> and
  \<open>range(len(nei2))\<close> and read \<open>nei1[i]\<close> and \<open>nei2[j]\<close>: the indices paired with the
  elements.
\<close>

definition graphs2bipartite_weight :: "store \<Rightarrow> addr list \<Rightarrow> addr list \<Rightarrow> error + (store \<times> graph)" where
  "graphs2bipartite_weight s nei1 nei2 =
     (let nodes1 = [0..<length nei1];
          nodes2 = [0..<length nei2];
          G_bp = fold (\<lambda>i G. add_node G (int i + 1)) nodes1 empty_graph;
          G_bp = fold (\<lambda>j G. add_node G (- int j - 1)) nodes2 G_bp
      in bp_outer s G_bp (enumerate 0 nei1) nei2)"

section \<open>The shortest-path distance (closest\_nodes/shortest\_path\_dist.py)\<close>

text \<open>
  \<open>nx.shortest_path(G, source, target)\<close> without a \<open>weight\<close> argument is networkx's
  breadth-first search. It is library code: the model takes it as a parameter \<open>sp\<close>,
  whose result is the path found, \<open>NoPath\<close> for the exception \<open>NetworkXNoPath\<close> and
  \<open>NotFound\<close> for \<open>NodeNotFound\<close>. \<open>nx.has_path\<close> is networkx's wrapper of the same
  search that turns \<open>NetworkXNoPath\<close> into \<open>False\<close>.
\<close>

datatype sp_result = Path "int list" | NoPath | NotFound

type_synonym nx = "graph \<Rightarrow> int \<Rightarrow> int \<Rightarrow> sp_result"

definition has_path :: "nx \<Rightarrow> graph \<Rightarrow> int \<Rightarrow> int \<Rightarrow> error + bool" where
  "has_path sp G source target =
     (case sp G source target of
        Path p \<Rightarrow> Inr True
      | NoPath \<Rightarrow> Inr False
      | NotFound \<Rightarrow> Inl NodeNotFound)"

definition shortest_path :: "nx \<Rightarrow> graph \<Rightarrow> int \<Rightarrow> int \<Rightarrow> error + int list" where
  "shortest_path sp G source target =
     (case sp G source target of
        Path p \<Rightarrow> Inr p
      | NoPath \<Rightarrow> Inl NetworkXNoPath
      | NotFound \<Rightarrow> Inl NodeNotFound)"

text \<open>
  \<open>random.choice(best_fit)\<close>: the random source is a sequence of numbers \<open>rnd\<close>, and the
  \<open>k\<close>-th draw picks the element at index \<open>rnd k mod len(best_fit)\<close>, so every sequence
  of draws the generator can make is some \<open>rnd\<close>.
\<close>

definition choice :: "(nat \<Rightarrow> nat) \<Rightarrow> nat \<Rightarrow> 'a list \<Rightarrow> error + 'a" where
  "choice rnd k xs = (if xs = [] then Inl IndexError else Inr (xs ! (rnd k mod length xs)))"

text \<open>
  Lines 131 and 132, \<open>while source_pair == sink_pair: sink_pair = random.choice(best_fit)\<close>.
  The loop has no bound; \<open>None\<close> is the run that never leaves it.
\<close>

partial_function (option) resample ::
  "(nat \<Rightarrow> nat) \<Rightarrow> nat \<Rightarrow> (int \<times> int) list \<Rightarrow> int \<times> int \<Rightarrow> int \<times> int \<Rightarrow> (int \<times> int) option"
where
  "resample rnd k best_fit source_pair sink_pair =
     (if source_pair = sink_pair
      then resample rnd (Suc k) best_fit source_pair (best_fit ! (rnd k mod length best_fit))
      else Some sink_pair)"

text \<open>Lines 138 to 149: a matched pair gives its node of \<open>G1\<close> and its node of \<open>G2\<close>.\<close>

definition decode :: "int \<times> int \<Rightarrow> int \<times> int" where
  "decode pair =
     (if fst pair > 0 then (fst pair - 1, - snd pair - 1)
      else (snd pair - 1, - fst pair - 1))"

text \<open>
  Lines 163 to 166: along the path \<open>s1\<close>, read the weight of each edge and remove the
  edge. \<open>range(len(s1)-1)\<close> is empty for a path of fewer than two nodes.
\<close>

fun drain_path :: "graph \<Rightarrow> int list \<Rightarrow> real list \<Rightarrow> error + (graph \<times> real list)" where
  "drain_path G (u # v # rest) w =
     (case adj G (u, v) of
        None \<Rightarrow> Inl KeyError
      | Some x \<Rightarrow>
          (case remove_edge G u v of
             Inl e \<Rightarrow> Inl e
           | Inr G' \<Rightarrow> drain_path G' (v # rest) (w @ [x])))"
| "drain_path G s w = Inr (G, w)"

text \<open>
  The state of the draining loop: the two graphs (mutated in place by the source), the
  two lists of path-weight sums and the lines printed so far.
\<close>

record drain_state =
  G1 :: graph
  G2 :: graph
  G1_weight_list :: "real list"
  G2_weight_list :: "real list"
  printed :: "string list"

datatype outcome = Continue drain_state | Break drain_state

text \<open>Lines 157 to 186: the body of \<open>for i in range(iter)\<close>.\<close>

definition drain_step :: "nx \<Rightarrow> int \<Rightarrow> int \<Rightarrow> int \<Rightarrow> int \<Rightarrow> drain_state \<Rightarrow> error + outcome" where
  "drain_step sp G1_source G1_sink G2_source G2_sink st =
     (case has_path sp (G1 st) G1_source G1_sink of
        Inl e \<Rightarrow> Inl e
      | Inr has_path1 \<Rightarrow>
     (case has_path sp (G2 st) G2_source G2_sink of
        Inl e \<Rightarrow> Inl e
      | Inr has_path2 \<Rightarrow>
          if has_path1 \<and> has_path2 then
            (case shortest_path sp (G1 st) G1_source G1_sink of
               Inl e \<Rightarrow> Inl e
             | Inr s1 \<Rightarrow>
            (case drain_path (G1 st) s1 [] of
               Inl e \<Rightarrow> Inl e
             | Inr (G1', w1) \<Rightarrow>
            (case shortest_path sp (G2 st) G2_source G2_sink of
               Inl e \<Rightarrow> Inl e
             | Inr s2 \<Rightarrow>
            (case drain_path (G2 st) s2 [] of
               Inl e \<Rightarrow> Inl e
             | Inr (G2', w2) \<Rightarrow>
                 Inr (Continue (st\<lparr>G1 := G1', G2 := G2',
                        G1_weight_list := G1_weight_list st @ [sum_list w1],
                        G2_weight_list := G2_weight_list st @ [sum_list w2]\<rparr>))))))
          else if \<not> has_path1 \<and> has_path2 then
            Inr (Break (st\<lparr>printed := printed st @
                   [''SPECIAL CASE: Graph 1 does not have enough shortest paths.'']\<rparr>))
          else if has_path1 \<and> \<not> has_path2 then
            Inr (Break (st\<lparr>printed := printed st @
                   [''SPECIAL CASE: Graph 2 does not have enough shortest paths.'']\<rparr>))
          else Inr (Break st)))"

fun drain_loop :: "nx \<Rightarrow> int \<Rightarrow> int \<Rightarrow> int \<Rightarrow> int \<Rightarrow> nat \<Rightarrow> drain_state \<Rightarrow> error + drain_state" where
  "drain_loop sp G1_source G1_sink G2_source G2_sink 0 st = Inr st"
| "drain_loop sp G1_source G1_sink G2_source G2_sink (Suc n) st =
     (case drain_step sp G1_source G1_sink G2_source G2_sink st of
        Inl e \<Rightarrow> Inl e
      | Inr (Break st') \<Rightarrow> Inr st'
      | Inr (Continue st') \<Rightarrow> drain_loop sp G1_source G1_sink G2_source G2_sink n st')"

text \<open>
  \<open>shortest_path_dist(G1, G2, best_fit)\<close>. The two graphs are two objects. The result is
  \<open>None\<close> when the call does not return, an exception, or the returned distance
  together with the final state (the graphs as the call leaves them, the recorded
  sums, the printed lines).
\<close>

definition shortest_path_dist ::
  "nx \<Rightarrow> (nat \<Rightarrow> nat) \<Rightarrow> graph \<Rightarrow> graph \<Rightarrow> (int \<times> int) list \<Rightarrow> (error + real \<times> drain_state) option"
where
  "shortest_path_dist sp rnd g1 g2 best_fit =
     (case choice rnd 0 best_fit of
        Inl e \<Rightarrow> Some (Inl e)
      | Inr source_pair \<Rightarrow>
     (case choice rnd 1 best_fit of
        Inl e \<Rightarrow> Some (Inl e)
      | Inr sink_pair0 \<Rightarrow>
     (case resample rnd 2 best_fit source_pair sink_pair0 of
        None \<Rightarrow> None
      | Some sink_pair \<Rightarrow>
          Some
            (let (G1_source, G2_source) = decode source_pair;
                 (G1_sink, G2_sink) = decode sink_pair;
                 iter = (length best_fit)\<^sup>2
             in case drain_loop sp G1_source G1_sink G2_source G2_sink iter
                       \<lparr>G1 = g1, G2 = g2, G1_weight_list = [], G2_weight_list = [], printed = []\<rparr> of
                  Inl e \<Rightarrow> Inl e
                | Inr st \<Rightarrow>
                    (case euclidean (G1_weight_list st) (G2_weight_list st) of
                       Inl e \<Rightarrow> Inl e
                     | Inr d \<Rightarrow> Inr (d, st))))))"

section \<open>HITS scores (hits.py)\<close>

text \<open>
  A numpy \<open>float64\<close>: a finite number, an infinity or NaN. Arithmetic on the finite
  numbers is exact (no rounding, no overflow, one zero without a sign); the other
  values follow IEEE 754, which is what numpy computes with, so that a division by
  zero is a value here as it is there: numpy warns and goes on, it does not raise.
\<close>

datatype npfloat = Fin real | PInf | NInf | NaN

definition inf_of :: "bool \<Rightarrow> npfloat" where
  "inf_of positive = (if positive then PInf else NInf)"

fun fadd :: "npfloat \<Rightarrow> npfloat \<Rightarrow> npfloat" where
  "fadd (Fin x) (Fin y) = Fin (x + y)"
| "fadd NaN y = NaN"
| "fadd x NaN = NaN"
| "fadd PInf NInf = NaN"
| "fadd NInf PInf = NaN"
| "fadd PInf y = PInf"
| "fadd x PInf = PInf"
| "fadd NInf y = NInf"
| "fadd x NInf = NInf"

fun fmul :: "npfloat \<Rightarrow> npfloat \<Rightarrow> npfloat" where
  "fmul (Fin x) (Fin y) = Fin (x * y)"
| "fmul NaN y = NaN"
| "fmul x NaN = NaN"
| "fmul PInf (Fin y) = (if y = 0 then NaN else inf_of (0 < y))"
| "fmul NInf (Fin y) = (if y = 0 then NaN else inf_of (y < 0))"
| "fmul (Fin x) PInf = (if x = 0 then NaN else inf_of (0 < x))"
| "fmul (Fin x) NInf = (if x = 0 then NaN else inf_of (x < 0))"
| "fmul PInf PInf = PInf"
| "fmul NInf NInf = PInf"
| "fmul PInf NInf = NInf"
| "fmul NInf PInf = NInf"

fun fdiv :: "npfloat \<Rightarrow> npfloat \<Rightarrow> npfloat" where
  "fdiv (Fin x) (Fin y) =
     (if y \<noteq> 0 then Fin (x / y) else if x = 0 then NaN else inf_of (0 < x))"
| "fdiv NaN y = NaN"
| "fdiv x NaN = NaN"
| "fdiv (Fin x) PInf = Fin 0"
| "fdiv (Fin x) NInf = Fin 0"
| "fdiv PInf (Fin y) = inf_of (0 \<le> y)"
| "fdiv NInf (Fin y) = inf_of (y < 0)"
| "fdiv PInf PInf = NaN"
| "fdiv PInf NInf = NaN"
| "fdiv NInf PInf = NaN"
| "fdiv NInf NInf = NaN"

text \<open>\<open>x ** 0.5\<close>, the C function \<open>pow\<close> at the exponent one half.\<close>

fun fsqrt :: "npfloat \<Rightarrow> npfloat" where
  "fsqrt (Fin x) = (if 0 \<le> x then Fin (sqrt x) else NaN)"
| "fsqrt PInf = PInf"
| "fsqrt NInf = PInf"
| "fsqrt NaN = NaN"

text \<open>
  A one-dimensional array is the list of its elements, a two-dimensional array the
  list of its rows. \<open>np.size\<close> counts the elements, \<open>np.transpose\<close> turns columns into
  rows, and \<open>np.dot\<close> of a matrix and a vector raises \<open>ValueError\<close> unless every row
  is as long as the vector.
\<close>

type_synonym vec = "npfloat list"
type_synonym matrix = "npfloat list list"

definition np_size :: "matrix \<Rightarrow> nat" where
  "np_size a = sum_list (map length a)"

definition np_transpose :: "matrix \<Rightarrow> matrix" where
  "np_transpose a =
     (case a of
        [] \<Rightarrow> []
      | r # rs \<Rightarrow> map (\<lambda>c. map (\<lambda>row. row ! c) a) [0..<length r])"

definition np_ones :: "nat \<Rightarrow> vec" where
  "np_ones n = replicate n (Fin 1)"

definition fsum :: "vec \<Rightarrow> npfloat" where
  "fsum xs = foldl fadd (Fin 0) xs"

definition np_dot :: "matrix \<Rightarrow> vec \<Rightarrow> error + vec" where
  "np_dot m v =
     (if list_all (\<lambda>row. length row = length v) m
      then Inr (map (\<lambda>row. fsum (map (\<lambda>(x, y). fmul x y) (zip row v))) m)
      else Inl ValueError)"

text \<open>
  \<open>normalization(score)\<close>, lines 93 to 101. There is no test of the denominator and
  no \<open>raise\<close>: the function has no exceptional outcome.
\<close>

definition normalization :: "vec \<Rightarrow> vec" where
  "normalization score =
     (let denominator = foldl (\<lambda>denominator i. fadd denominator (fmul i i)) (Fin 0) score;
          denominator = fsqrt denominator
      in map (\<lambda>x. fdiv x denominator) score)"

text \<open>The body of \<open>for i in range(k)\<close>, lines 66 to 73, and the loop.\<close>

definition hits_body :: "matrix \<Rightarrow> matrix \<Rightarrow> bool \<Rightarrow> vec \<times> vec \<Rightarrow> error + (vec \<times> vec)" where
  "hits_body a aT normalize' st =
     (case np_dot aT (snd st) of
        Inl e \<Rightarrow> Inl e
      | Inr authorityScore \<Rightarrow>
          (let authorityScore = (if normalize' then normalization authorityScore else authorityScore)
           in case np_dot a authorityScore of
                Inl e \<Rightarrow> Inl e
              | Inr hubScore \<Rightarrow>
                  (let hubScore = (if normalize' then normalization hubScore else hubScore)
                   in Inr (authorityScore, hubScore))))"

fun hits_loop :: "nat \<Rightarrow> matrix \<Rightarrow> matrix \<Rightarrow> bool \<Rightarrow> vec \<times> vec \<Rightarrow> error + (vec \<times> vec)" where
  "hits_loop 0 a aT normalize' st = Inr st"
| "hits_loop (Suc n) a aT normalize' st =
     (case hits_body a aT normalize' st of
        Inl e \<Rightarrow> Inl e
      | Inr st' \<Rightarrow> hits_loop n a aT normalize' st')"

text \<open>
  \<open>hits(a, k, normalize)\<close>. \<open>int(np.size(a) ** 0.5)\<close> is the square root rounded down;
  \<open>range(k)\<close> of a negative \<open>k\<close> is empty.
\<close>

definition hits :: "matrix \<Rightarrow> int \<Rightarrow> bool \<Rightarrow> error + (vec \<times> vec)" where
  "hits a k normalize' =
     (let numOfVertices = nat \<lfloor>sqrt (real (np_size a))\<rfloor>;
          aT = np_transpose a;
          authorityScore = np_ones numOfVertices;
          hubScore = np_ones numOfVertices
      in hits_loop (nat k) a aT normalize' (authorityScore, hubScore))"

text \<open>The call \<open>hits(a)\<close> with the defaults of the signature, \<open>k=40, normalize=True\<close>.\<close>

definition hits_default :: "matrix \<Rightarrow> error + (vec \<times> vec)" where
  "hits_default a = hits a 40 True"

text \<open>
  \<open>np.sort\<close>: ascending, NaN last. \<open>np.allclose\<close> with its default tolerances
  \<open>rtol=1e-05\<close> and \<open>atol=1e-08\<close>: two finite numbers are close when
  \<open>|x - y| \<le> atol + rtol * |y|\<close>, an infinity is close to itself only, NaN to nothing;
  an array of one element is broadcast, other arrays of different lengths raise
  \<open>ValueError\<close>.
\<close>

fun np_le :: "npfloat \<Rightarrow> npfloat \<Rightarrow> bool" where
  "np_le x NaN = True"
| "np_le NaN y = False"
| "np_le NInf y = True"
| "np_le x NInf = False"
| "np_le x PInf = True"
| "np_le PInf y = False"
| "np_le (Fin x) (Fin y) = (x \<le> y)"

fun np_insort :: "npfloat \<Rightarrow> vec \<Rightarrow> vec" where
  "np_insort x [] = [x]"
| "np_insort x (y # ys) = (if np_le x y then x # y # ys else y # np_insort x ys)"

definition np_sort :: "vec \<Rightarrow> vec" where
  "np_sort xs = foldr np_insort xs []"

fun isclose :: "npfloat \<Rightarrow> npfloat \<Rightarrow> bool" where
  "isclose (Fin x) (Fin y) = (\<bar>x - y\<bar> \<le> 1 / 10 ^ 8 + (1 / 10 ^ 5) * \<bar>y\<bar>)"
| "isclose PInf PInf = True"
| "isclose NInf NInf = True"
| "isclose x y = False"

definition np_allclose :: "vec \<Rightarrow> vec \<Rightarrow> error + bool" where
  "np_allclose x y =
     (if length x = length y then Inr (list_all (\<lambda>(a, b). isclose a b) (zip x y))
      else if length x = 1 then Inr (list_all (\<lambda>b. isclose (hd x) b) y)
      else if length y = 1 then Inr (list_all (\<lambda>a. isclose a (hd y)) x)
      else Inl ValueError)"

text \<open>
  \<open>comparison(a, b)\<close>. The function ends with a bare \<open>return\<close>; what it produces is the
  text it prints, one value of \<open>printout\<close> for each call of \<open>print\<close>, in order. The
  first four carry the sorted score vector and the step count the source prints.
\<close>

datatype printout =
  Authority_score_for_A vec nat
| Hub_score_for_A vec nat
| Authority_score_for_B vec nat
| Hub_score_for_B vec nat
| Similar
| Opss

definition comparison :: "matrix \<Rightarrow> matrix \<Rightarrow> error + printout list" where
  "comparison a b =
     (case hits_default a of
        Inl e \<Rightarrow> Inl e
      | Inr (authorityA, hubA) \<Rightarrow>
     (case hits_default b of
        Inl e \<Rightarrow> Inl e
      | Inr (authorityB, hubB) \<Rightarrow>
          (let authorityA = np_sort authorityA;
               authorityB = np_sort authorityB;
               hubA = np_sort hubA;
               hubB = np_sort hubB
           in case np_allclose authorityA authorityB of
                Inl e \<Rightarrow> Inl e
              | Inr authorityEqual \<Rightarrow>
             (case np_allclose hubA hubB of
                Inl e \<Rightarrow> Inl e
              | Inr hubEqual \<Rightarrow>
                  Inr [Authority_score_for_A authorityA 40, Hub_score_for_A hubA 40,
                       Authority_score_for_B authorityB 40, Hub_score_for_B hubB 40,
                       if authorityEqual \<and> hubEqual then Similar else Opss]))))"

section \<open>Reference definitions for the profile distance\<close>

text \<open>
  ProfileDistance as the specification words it: pad the shorter vector with trailing
  zeros until the lengths match, then take the Euclidean distance of the two
  equal-length vectors. It works on values, so nothing it pads is shared.
\<close>

definition pad_to :: "nat \<Rightarrow> real list \<Rightarrow> real list" where
  "pad_to n u = u @ replicate (n - length u) 0"

definition profile_distance :: "real list \<Rightarrow> real list \<Rightarrow> real" where
  "profile_distance u v =
     (let n = max (length u) (length v)
      in sqrt (\<Sum>(x, y)\<leftarrow>zip (pad_to n u) (pad_to n v). (x - y)\<^sup>2))"

text \<open>Two profiles are the same up to trailing zeros.\<close>

definition same_profile :: "real list \<Rightarrow> real list \<Rightarrow> bool" where
  "same_profile u v =
     (pad_to (max (length u) (length v)) u = pad_to (max (length u) (length v)) v)"

text \<open>
  The squared distance by recursion on both vectors, a missing component counting as
  zero; the proofs go through it.
\<close>

fun sqd :: "real list \<Rightarrow> real list \<Rightarrow> real" where
  "sqd [] ys = (\<Sum>y\<leftarrow>ys. y\<^sup>2)"
| "sqd (x # xs) [] = (\<Sum>y\<leftarrow>x # xs. y\<^sup>2)"
| "sqd (x # xs) (y # ys) = (x - y)\<^sup>2 + sqd xs ys"

text \<open>
  What the in-place padding does to a store: every stored vector is the vector it was,
  followed by zeros.
\<close>

definition zero_ext :: "store \<Rightarrow> store \<Rightarrow> bool" where
  "zero_ext s s' = (\<forall>a. \<exists>k. s' a = s a @ replicate k 0)"

text \<open>The index \<open>dist_list.index(min(dist_list))\<close> finds: the first position of a least element.\<close>

definition first_min :: "real list \<Rightarrow> nat \<Rightarrow> bool" where
  "first_min dl k = (k < length dl \<and> (\<forall>j<length dl. dl ! k \<le> dl ! j) \<and> (\<forall>j<k. dl ! j \<noteq> dl ! k))"

text \<open>
  The edge that one pass of the loop body of \<open>graphs2bipartite_weight\<close> leaves in the
  graph, with the weight computed from the store \<open>s0\<close> the call started with.
\<close>

definition bp_edge :: "store \<Rightarrow> nat \<Rightarrow> addr \<Rightarrow> nat \<times> addr \<Rightarrow> graph \<Rightarrow> graph" where
  "bp_edge s0 i a jb G =
     add_edge G (int i + 1) (- int (fst jb) - 1) (bp_weight (profile_distance (s0 a) (s0 (snd jb))))"

section \<open>The profile distance, the closest nodes and the bipartite graph\<close>

lemma sqd_Nil2 [simp]: "sqd xs [] = (\<Sum>y\<leftarrow>xs. y\<^sup>2)"
  by (cases xs) simp_all

lemma sqd_zip: "length u = length v \<Longrightarrow> (\<Sum>(x, y)\<leftarrow>zip u v. (x - y)\<^sup>2) = sqd u v"
  by (induction u v rule: list_induct2) simp_all

lemma sqd_zeros: "sqd u (replicate k 0) = (\<Sum>y\<leftarrow>u. y\<^sup>2)"
proof (induction u arbitrary: k)
  case Nil
  then show ?case by (simp add: sum_list_replicate)
next
  case (Cons x u)
  then show ?case by (cases k) simp_all
qed

lemma sqd_replicate_right: "sqd u (v @ replicate k 0) = sqd u v"
proof (induction u v rule: sqd.induct)
  case (1 ys)
  then show ?case by (simp add: sum_list_replicate)
next
  case (2 x xs)
  then show ?case using sqd_zeros [of "x # xs" k] by simp
next
  case (3 x xs y ys)
  then show ?case by simp
qed

lemma sqd_sym: "sqd u v = sqd v u"
  by (induction u v rule: sqd.induct) (simp_all add: power2_commute)

lemma sqd_replicate_left: "sqd (u @ replicate k 0) v = sqd u v"
  by (metis sqd_sym sqd_replicate_right)

lemma profile_distance_sqd: "profile_distance u v = sqrt (sqd u v)"
  by (simp add: profile_distance_def Let_def pad_to_def sqd_zip sqd_replicate_left sqd_replicate_right)

lemma zero_ext_refl: "zero_ext s s"
  unfolding zero_ext_def by (metis append_Nil2 replicate_0)

lemma zero_ext_trans: "zero_ext s s' \<Longrightarrow> zero_ext s' s'' \<Longrightarrow> zero_ext s s''"
  unfolding zero_ext_def by (metis append_assoc replicate_add)

lemma profile_distance_zero_ext:
  "zero_ext s s' \<Longrightarrow> profile_distance (s' a) (s' b) = profile_distance (s a) (s b)"
proof -
  assume e: "zero_ext s s'"
  obtain k where k: "s' a = s a @ replicate k 0" using e unfolding zero_ext_def by blast
  obtain l where l: "s' b = s b @ replicate l 0" using e unfolding zero_ext_def by blast
  show ?thesis by (simp add: profile_distance_sqd k l sqd_replicate_left sqd_replicate_right)
qed

lemma profile_distance_sym: "profile_distance u v = profile_distance v u"
  by (simp add: profile_distance_sqd sqd_sym)

lemma cn_pad_at:
  "cn_pad s i j a = (if a = i \<or> a = j then pad_to (max (length (s i)) (length (s j))) (s a) else s a)"
  by (auto simp: cn_pad_def append_zeros_def pad_to_def max_def)

lemma bp_pad_at:
  "bp_pad s i j a = (if a = i \<or> a = j then pad_to (max (length (s i)) (length (s j))) (s a) else s a)"
  by (auto simp: bp_pad_def append_zeros_def pad_to_def max_def)

lemma bp_pad_eq: "bp_pad s i j = cn_pad s i j"
  by (rule ext) (simp add: cn_pad_at bp_pad_at)

lemma length_pad_to: "length (pad_to n u) = max n (length u)"
  by (simp add: pad_to_def)

lemma cn_dist_value: "snd (cn_dist s i j) = Inr (profile_distance (s i) (s j))"
  by (simp add: cn_dist_def Let_def cn_pad_at euclidean_def length_pad_to profile_distance_def)

lemma bp_dist_value: "snd (bp_dist s i j) = Inr (profile_distance (s i) (s j))"
  by (simp add: bp_dist_def Let_def bp_pad_at euclidean_def length_pad_to profile_distance_def)

lemma cn_pad_zero_ext: "zero_ext s (cn_pad s i j)"
  unfolding zero_ext_def by (auto simp: cn_pad_at pad_to_def intro: exI [of _ 0])

lemma cn_dist_eq: "cn_dist s i j = (cn_pad s i j, Inr (profile_distance (s i) (s j)))"
  using cn_dist_value [of s i j] by (simp add: cn_dist_def Let_def)

lemma bp_dist_eq: "bp_dist s i j = (cn_pad s i j, Inr (profile_distance (s i) (s j)))"
  using bp_dist_value [of s i j] by (simp add: bp_dist_def Let_def bp_pad_eq)

lemma cn_inner_value:
  "zero_ext s0 s \<Longrightarrow>
   \<exists>s'. cn_inner s i js dl = Inr (s', dl @ map (\<lambda>j. profile_distance (s0 i) (s0 j)) js) \<and> zero_ext s0 s'"
proof (induction js arbitrary: s dl)
  case Nil
  then show ?case by simp
next
  case (Cons j js)
  have e: "zero_ext s0 (cn_pad s i j)"
    using Cons.prems cn_pad_zero_ext zero_ext_trans by blast
  show ?case
    using Cons.IH [OF e, of "dl @ [profile_distance (s i) (s j)]"]
    by (simp add: cn_dist_eq profile_distance_zero_ext [OF Cons.prems])
qed

lemma fold_min_le: "fold min xs (x::real) \<le> x \<and> (\<forall>y\<in>set xs. fold min xs x \<le> y)"
  by (induction xs arbitrary: x) (auto simp: min_def intro: order_trans, (metis linear order_trans)+)

lemma fold_min_mem: "fold min xs (x::real) \<in> set (x # xs)"
  by (induction xs arbitrary: x) (auto simp: min_def)

lemma py_min_value:
  "dl \<noteq> [] \<Longrightarrow> \<exists>m. py_min dl = Inr m \<and> m \<in> set dl \<and> (\<forall>y\<in>set dl. m \<le> y)"
proof (cases dl)
  case Nil
  assume "dl \<noteq> []"
  with Nil show ?thesis by simp
next
  case (Cons x xs)
  show ?thesis
    using fold_min_mem [of xs x] fold_min_le [of xs x] by (simp add: Cons)
qed

lemma py_index_value:
  "m \<in> set dl \<Longrightarrow> \<exists>k. py_index dl m = Inr k \<and> k < length dl \<and> dl ! k = m \<and> (\<forall>j<k. dl ! j \<noteq> m)"
proof (induction dl)
  case Nil
  then show ?case by simp
next
  case (Cons x dl)
  show ?case
  proof (cases "x = m")
    case True
    then show ?thesis by simp
  next
    case False
    with Cons.prems have "m \<in> set dl" by simp
    then obtain k where k: "py_index dl m = Inr k" "k < length dl" "dl ! k = m" "\<forall>j<k. dl ! j \<noteq> m"
      using Cons.IH by blast
    have "\<forall>j<Suc k. (x # dl) ! j \<noteq> m"
      using False k(4) by (auto simp: nth_Cons split: nat.splits)
    then show ?thesis using False k by simp
  qed
qed

lemma first_min_value:
  assumes "dl \<noteq> []"
  shows "\<exists>m k. py_min dl = Inr m \<and> py_index dl m = Inr k \<and> first_min dl k"
proof -
  obtain m where m: "py_min dl = Inr m" "m \<in> set dl" "\<forall>y\<in>set dl. m \<le> y"
    using py_min_value [OF assms] by blast
  obtain k where k: "py_index dl m = Inr k" "k < length dl" "dl ! k = m" "\<forall>j<k. dl ! j \<noteq> m"
    using py_index_value [OF m(2)] by blast
  have "first_min dl k"
    unfolding first_min_def using k m(3) by simp
  then show ?thesis using m(1) k(1) by blast
qed

lemma cn_outer_value:
  "zero_ext s0 s \<Longrightarrow> nl2 \<noteq> [] \<Longrightarrow>
   \<exists>s' r. cn_outer s nl1 nl2 c acc = Inr (s', acc @ r) \<and> zero_ext s0 s' \<and> length r = length nl1 \<and>
     (\<forall>n<length nl1. \<exists>k. r ! n = (c + n, k) \<and>
        first_min (map (\<lambda>j. profile_distance (s0 (nl1 ! n)) (s0 j)) nl2) k)"
proof (induction nl1 arbitrary: s c acc)
  case Nil
  then show ?case by simp
next
  case (Cons i nl1)
  let ?dl = "map (\<lambda>j. profile_distance (s0 i) (s0 j)) nl2"
  obtain s1 where s1: "cn_inner s i nl2 [] = Inr (s1, ?dl)" "zero_ext s0 s1"
    using cn_inner_value [OF Cons.prems(1), of i nl2 "[]"] by auto
  have ne: "?dl \<noteq> []" using Cons.prems(2) by simp
  obtain m k where mk: "py_min ?dl = Inr m" "py_index ?dl m = Inr k" "first_min ?dl k"
    using first_min_value [OF ne] by blast
  obtain s' r where r: "cn_outer s1 nl1 nl2 (c + 1) (acc @ [(c, k)]) = Inr (s', (acc @ [(c, k)]) @ r)"
      "zero_ext s0 s'" "length r = length nl1"
      "\<forall>n<length nl1. \<exists>k. r ! n = (c + 1 + n, k) \<and>
          first_min (map (\<lambda>j. profile_distance (s0 (nl1 ! n)) (s0 j)) nl2) k"
    using Cons.IH [OF s1(2) Cons.prems(2), of "c + 1" "acc @ [(c, k)]"] by blast
  have run: "cn_outer s (i # nl1) nl2 c acc = Inr (s', acc @ ((c, k) # r))"
    using s1(1) mk(1,2) r(1) by simp
  have each: "\<forall>n<length (i # nl1). \<exists>k'. ((c, k) # r) ! n = (c + n, k') \<and>
      first_min (map (\<lambda>j. profile_distance (s0 ((i # nl1) ! n)) (s0 j)) nl2) k'"
  proof (intro allI impI)
    fix n assume n: "n < length (i # nl1)"
    show "\<exists>k'. ((c, k) # r) ! n = (c + n, k') \<and>
      first_min (map (\<lambda>j. profile_distance (s0 ((i # nl1) ! n)) (s0 j)) nl2) k'"
    proof (cases n)
      case 0
      then show ?thesis using mk(3) by simp
    next
      case (Suc n')
      then have "n' < length nl1" using n by simp
      then show ?thesis using r(4) Suc by simp
    qed
  qed
  show ?case
    using run r(2) r(3) each by (intro exI [of _ s'] exI [of _ "(c, k) # r"]) simp
qed

lemma euclidean_same_length:
  "length u = length v \<Longrightarrow> euclidean u v = Inr (profile_distance u v)"
  by (simp add: euclidean_def profile_distance_def pad_to_def)

lemma add_edge_twice: "add_edge (add_edge G u v w) u v w = add_edge G u v w"
proof -
  have "insert u (insert v (insert u (insert v (nodes G)))) = insert u (insert v (nodes G))"
    by auto
  then show ?thesis by (simp add: add_edge_def)
qed

lemma bp_body_eq:
  "bp_body s G i j a b =
     Inr (cn_pad s a b, add_edge G (int i + 1) (- int j - 1) (bp_weight (profile_distance (s a) (s b))))"
  by (simp add: bp_body_def bp_dist_eq euclidean_same_length add_edge_twice)

lemma bp_inner_fold:
  "zero_ext s0 s \<Longrightarrow>
   \<exists>s'. bp_inner s G i a js = Inr (s', fold (bp_edge s0 i a) js G) \<and> zero_ext s0 s'"
proof (induction js arbitrary: s G)
  case Nil
  then show ?case by simp
next
  case (Cons jb js)
  obtain j b where jb: "jb = (j, b)" by (cases jb)
  have e: "zero_ext s0 (cn_pad s a b)"
    using Cons.prems cn_pad_zero_ext zero_ext_trans by blast
  show ?case
    using Cons.IH [OF e]
    by (simp add: jb bp_body_eq bp_edge_def profile_distance_zero_ext [OF Cons.prems])
qed

lemma bp_outer_fold:
  "zero_ext s0 s \<Longrightarrow>
   \<exists>s'. bp_outer s G is nei2 =
           Inr (s', fold (\<lambda>ia. fold (bp_edge s0 (fst ia) (snd ia)) (enumerate 0 nei2)) is G) \<and>
        zero_ext s0 s'"
proof (induction "is" arbitrary: s G)
  case Nil
  then show ?case by simp
next
  case (Cons ia "is")
  obtain i a where ia: "ia = (i, a)" by (cases ia)
  obtain s1 where s1: "bp_inner s G i a (enumerate 0 nei2) = Inr (s1, fold (bp_edge s0 i a) (enumerate 0 nei2) G)"
     "zero_ext s0 s1"
    using bp_inner_fold [OF Cons.prems] by blast
  show ?case using Cons.IH [OF s1(2)] s1(1) by (simp add: ia)
qed

lemma inner_fold_adj:
  "(\<forall>m<length xs. adj (fold (bp_edge s0 i a) (enumerate n xs) G) (int i + 1, - int (n + m) - 1)
        = Some (bp_weight (profile_distance (s0 a) (s0 (xs ! m)))) \<and>
      adj (fold (bp_edge s0 i a) (enumerate n xs) G) (- int (n + m) - 1, int i + 1)
        = Some (bp_weight (profile_distance (s0 a) (s0 (xs ! m))))) \<and>
   (\<forall>e. (\<forall>m<length xs. e \<noteq> (int i + 1, - int (n + m) - 1) \<and> e \<noteq> (- int (n + m) - 1, int i + 1)) \<longrightarrow>
      adj (fold (bp_edge s0 i a) (enumerate n xs) G) e = adj G e)"
proof (induction xs arbitrary: n G)
  case Nil
  then show ?case by simp
next
  case (Cons x xs)
  let ?Gone = "bp_edge s0 i a (n, x) G"
  let ?F = "fold (bp_edge s0 i a) (enumerate (Suc n) xs) ?Gone"
  have F: "fold (bp_edge s0 i a) (enumerate n (x # xs)) G = ?F" by simp
  note IH = Cons.IH [of "Suc n" ?Gone]
  have unch: "\<And>e. (\<forall>m<length xs. e \<noteq> (int i + 1, - int (Suc n + m) - 1) \<and> e \<noteq> (- int (Suc n + m) - 1, int i + 1))
      \<Longrightarrow> adj ?F e = adj ?Gone e"
    using IH by blast
  have G1a: "adj ?Gone (int i + 1, - int n - 1) = Some (bp_weight (profile_distance (s0 a) (s0 x)))"
    by (simp add: bp_edge_def add_edge_def)
  have G1b: "adj ?Gone (- int n - 1, int i + 1) = Some (bp_weight (profile_distance (s0 a) (s0 x)))"
    by (simp add: bp_edge_def add_edge_def)
  have part1: "\<forall>m<length (x # xs). adj ?F (int i + 1, - int (n + m) - 1)
        = Some (bp_weight (profile_distance (s0 a) (s0 ((x # xs) ! m)))) \<and>
      adj ?F (- int (n + m) - 1, int i + 1)
        = Some (bp_weight (profile_distance (s0 a) (s0 ((x # xs) ! m))))"
  proof (intro allI impI)
    fix m assume m: "m < length (x # xs)"
    show "adj ?F (int i + 1, - int (n + m) - 1)
        = Some (bp_weight (profile_distance (s0 a) (s0 ((x # xs) ! m)))) \<and>
      adj ?F (- int (n + m) - 1, int i + 1)
        = Some (bp_weight (profile_distance (s0 a) (s0 ((x # xs) ! m))))"
    proof (cases m)
      case 0
      have "adj ?F (int i + 1, - int n - 1) = adj ?Gone (int i + 1, - int n - 1)"
        by (rule unch) auto
      moreover have "adj ?F (- int n - 1, int i + 1) = adj ?Gone (- int n - 1, int i + 1)"
        by (rule unch) auto
      ultimately show ?thesis using G1a G1b 0 by simp
    next
      case (Suc m')
      then have "m' < length xs" using m by simp
      then show ?thesis using IH Suc by simp
    qed
  qed
  have part2: "\<forall>e. (\<forall>m<length (x # xs). e \<noteq> (int i + 1, - int (n + m) - 1) \<and> e \<noteq> (- int (n + m) - 1, int i + 1)) \<longrightarrow>
      adj ?F e = adj G e"
  proof (intro allI impI)
    fix e
    assume h: "\<forall>m<length (x # xs). e \<noteq> (int i + 1, - int (n + m) - 1) \<and> e \<noteq> (- int (n + m) - 1, int i + 1)"
    have h0: "e \<noteq> (int i + 1, - int n - 1) \<and> e \<noteq> (- int n - 1, int i + 1)"
      using h [rule_format, of 0] by simp
    have hS: "\<forall>m<length xs. e \<noteq> (int i + 1, - int (Suc n + m) - 1) \<and> e \<noteq> (- int (Suc n + m) - 1, int i + 1)"
    proof (intro allI impI)
      fix m assume "m < length xs"
      then show "e \<noteq> (int i + 1, - int (Suc n + m) - 1) \<and> e \<noteq> (- int (Suc n + m) - 1, int i + 1)"
        using h [rule_format, of "Suc m"] by simp
    qed
    have "adj ?F e = adj ?Gone e" using unch hS by blast
    also have "\<dots> = adj G e" using h0 by (simp add: bp_edge_def add_edge_def)
    finally show "adj ?F e = adj G e" .
  qed
  show ?case unfolding F using part1 part2 by blast
qed

lemma inner_fold_nodes:
  "nodes (fold (bp_edge s0 i a) (enumerate n xs) G) =
     nodes G \<union> (if xs = [] then {} else {int i + 1}) \<union> (\<lambda>j. - int j - 1) ` {n..<n + length xs}"
proof (induction xs arbitrary: n G)
  case Nil
  then show ?case by simp
next
  case (Cons x xs)
  have "{n..<n + length (x # xs)} = insert n {Suc n..<Suc n + length xs}" by auto
  then show ?case
    using Cons.IH [of "Suc n" "bp_edge s0 i a (n, x) G"]
    by (auto simp: bp_edge_def add_edge_def)
qed

lemma outer_fold_adj:
  "(\<forall>m<length xs. \<forall>j<length ys.
      adj (fold (\<lambda>ia. fold (bp_edge s0 (fst ia) (snd ia)) (enumerate 0 ys)) (enumerate c xs) G)
          (int (c + m) + 1, - int j - 1)
        = Some (bp_weight (profile_distance (s0 (xs ! m)) (s0 (ys ! j)))) \<and>
      adj (fold (\<lambda>ia. fold (bp_edge s0 (fst ia) (snd ia)) (enumerate 0 ys)) (enumerate c xs) G)
          (- int j - 1, int (c + m) + 1)
        = Some (bp_weight (profile_distance (s0 (xs ! m)) (s0 (ys ! j))))) \<and>
   (\<forall>e. (\<forall>m<length xs. \<forall>j<length ys.
            e \<noteq> (int (c + m) + 1, - int j - 1) \<and> e \<noteq> (- int j - 1, int (c + m) + 1)) \<longrightarrow>
      adj (fold (\<lambda>ia. fold (bp_edge s0 (fst ia) (snd ia)) (enumerate 0 ys)) (enumerate c xs) G) e = adj G e)"
proof (induction xs arbitrary: c G)
  case Nil
  then show ?case by simp
next
  case (Cons x xs)
  let ?Gone = "fold (bp_edge s0 c x) (enumerate 0 ys) G"
  let ?O = "\<lambda>c xs G. fold (\<lambda>ia. fold (bp_edge s0 (fst ia) (snd ia)) (enumerate 0 ys)) (enumerate c xs) G"
  let ?F = "?O (Suc c) xs ?Gone"
  have F: "?O c (x # xs) G = ?F" by simp
  note IH = Cons.IH [of "Suc c" ?Gone]
  note inner = inner_fold_adj [of ys s0 c x 0 G]
  have unch: "\<And>e. (\<forall>m<length xs. \<forall>j<length ys.
            e \<noteq> (int (Suc c + m) + 1, - int j - 1) \<and> e \<noteq> (- int j - 1, int (Suc c + m) + 1))
      \<Longrightarrow> adj ?F e = adj ?Gone e"
    using IH by blast
  have part1: "\<forall>m<length (x # xs). \<forall>j<length ys.
      adj ?F (int (c + m) + 1, - int j - 1)
        = Some (bp_weight (profile_distance (s0 ((x # xs) ! m)) (s0 (ys ! j)))) \<and>
      adj ?F (- int j - 1, int (c + m) + 1)
        = Some (bp_weight (profile_distance (s0 ((x # xs) ! m)) (s0 (ys ! j))))"
  proof (intro allI impI)
    fix m j assume m: "m < length (x # xs)" and j: "j < length ys"
    show "adj ?F (int (c + m) + 1, - int j - 1)
        = Some (bp_weight (profile_distance (s0 ((x # xs) ! m)) (s0 (ys ! j)))) \<and>
      adj ?F (- int j - 1, int (c + m) + 1)
        = Some (bp_weight (profile_distance (s0 ((x # xs) ! m)) (s0 (ys ! j))))"
    proof (cases m)
      case 0
      have "adj ?F (int c + 1, - int j - 1) = adj ?Gone (int c + 1, - int j - 1)"
        by (rule unch) auto
      moreover have "adj ?F (- int j - 1, int c + 1) = adj ?Gone (- int j - 1, int c + 1)"
        by (rule unch) auto
      ultimately show ?thesis using inner j 0 by simp
    next
      case (Suc m')
      then have "m' < length xs" using m by simp
      then show ?thesis using IH Suc j by simp
    qed
  qed
  have part2: "\<forall>e. (\<forall>m<length (x # xs). \<forall>j<length ys.
            e \<noteq> (int (c + m) + 1, - int j - 1) \<and> e \<noteq> (- int j - 1, int (c + m) + 1)) \<longrightarrow>
      adj ?F e = adj G e"
  proof (intro allI impI)
    fix e
    assume h: "\<forall>m<length (x # xs). \<forall>j<length ys.
            e \<noteq> (int (c + m) + 1, - int j - 1) \<and> e \<noteq> (- int j - 1, int (c + m) + 1)"
    have h0: "\<forall>j<length ys. e \<noteq> (int c + 1, - int (0 + j) - 1) \<and> e \<noteq> (- int (0 + j) - 1, int c + 1)"
      using h [rule_format, of 0] by simp
    have hS: "\<forall>m<length xs. \<forall>j<length ys.
            e \<noteq> (int (Suc c + m) + 1, - int j - 1) \<and> e \<noteq> (- int j - 1, int (Suc c + m) + 1)"
    proof (intro allI impI)
      fix m j assume "m < length xs" "j < length ys"
      then show "e \<noteq> (int (Suc c + m) + 1, - int j - 1) \<and> e \<noteq> (- int j - 1, int (Suc c + m) + 1)"
        using h [rule_format, of "Suc m" j] by simp
    qed
    have "adj ?F e = adj ?Gone e" using unch hS by blast
    also have "\<dots> = adj G e" using inner h0 by blast
    finally show "adj ?F e = adj G e" .
  qed
  show ?case unfolding F using part1 part2 by blast
qed

lemma outer_fold_nodes:
  "nodes (fold (\<lambda>ia. fold (bp_edge s0 (fst ia) (snd ia)) (enumerate 0 ys)) (enumerate c xs) G) =
     nodes G \<union> (if ys = [] then {} else (\<lambda>i. int i + 1) ` {c..<c + length xs})
             \<union> (if xs = [] then {} else (\<lambda>j. - int j - 1) ` {0..<length ys})"
proof (induction xs arbitrary: c G)
  case Nil
  then show ?case by simp
next
  case (Cons x xs)
  have "{c..<c + length (x # xs)} = insert c {Suc c..<Suc c + length xs}" by auto
  then show ?case
    using Cons.IH [of "Suc c" "fold (bp_edge s0 c x) (enumerate 0 ys) G"]
    by (auto simp: inner_fold_nodes)
qed

lemma fold_add_node:
  "nodes (fold (\<lambda>i G. add_node G (f i)) xs G) = nodes G \<union> f ` set xs \<and>
   adj (fold (\<lambda>i G. add_node G (f i)) xs G) = adj G"
  by (induction xs arbitrary: G) (auto simp: add_node_def)

lemma graphs2bipartite_weight_value:
  "\<exists>s'. graphs2bipartite_weight s nei1 nei2 =
      Inr (s', fold (\<lambda>ia. fold (bp_edge s (fst ia) (snd ia)) (enumerate 0 nei2)) (enumerate 0 nei1)
                 (fold (\<lambda>j G. add_node G (- int j - 1)) [0..<length nei2]
                   (fold (\<lambda>i G. add_node G (int i + 1)) [0..<length nei1] empty_graph))) \<and>
      zero_ext s s'"
  unfolding graphs2bipartite_weight_def Let_def
  by (rule bp_outer_fold [OF zero_ext_refl])

text \<open>
  Claim C7. \<open>graphs2bipartite_weight(nei1, nei2)\<close> returns a graph whose nodes are
  \<open>i+1\<close> for every index \<open>i\<close> of \<open>nei1\<close> and \<open>-(j+1)\<close> for every index \<open>j\<close> of \<open>nei2\<close>,
  with an edge between \<open>i+1\<close> and \<open>-(j+1)\<close> of weight \<open>1/(d + 0.001)\<close> for every pair,
  \<open>d\<close> being the Euclidean distance of the two zero-padded profiles the caller passed,
  and with no other edge.
\<close>

theorem bipartite_weight_complete:
  "\<exists>s' G. graphs2bipartite_weight s nei1 nei2 = Inr (s', G) \<and>
     nodes G = (\<lambda>i. int i + 1) ` {0..<length nei1} \<union> (\<lambda>j. - int j - 1) ` {0..<length nei2} \<and>
     (\<forall>i<length nei1. \<forall>j<length nei2.
        adj G (int i + 1, - int j - 1) = Some (1 / (profile_distance (s (nei1 ! i)) (s (nei2 ! j)) + 0.001)) \<and>
        adj G (- int j - 1, int i + 1) = Some (1 / (profile_distance (s (nei1 ! i)) (s (nei2 ! j)) + 0.001))) \<and>
     (\<forall>e. adj G e \<noteq> None \<longrightarrow>
        (\<exists>i<length nei1. \<exists>j<length nei2. e = (int i + 1, - int j - 1) \<or> e = (- int j - 1, int i + 1)))"
proof -
  let ?Ginit = "fold (\<lambda>j G. add_node G (- int j - 1)) [0..<length nei2]
                   (fold (\<lambda>i G. add_node G (int i + 1)) [0..<length nei1] empty_graph)"
  let ?G = "fold (\<lambda>ia. fold (bp_edge s (fst ia) (snd ia)) (enumerate 0 nei2)) (enumerate 0 nei1) ?Ginit"
  obtain s' where run: "graphs2bipartite_weight s nei1 nei2 = Inr (s', ?G)"
    using graphs2bipartite_weight_value by blast
  have n0: "nodes ?Ginit = (\<lambda>i. int i + 1) ` {0..<length nei1} \<union> (\<lambda>j. - int j - 1) ` {0..<length nei2}"
    by (auto simp: fold_add_node empty_graph_def)
  have a0: "adj ?Ginit = (\<lambda>e. None)"
    by (simp add: fold_add_node empty_graph_def)
  have nodes: "nodes ?G = (\<lambda>i. int i + 1) ` {0..<length nei1} \<union> (\<lambda>j. - int j - 1) ` {0..<length nei2}"
  proof -
    have "nodes ?G = nodes ?Ginit \<union> (if nei2 = [] then {} else (\<lambda>i. int i + 1) ` {0..<0 + length nei1})
             \<union> (if nei1 = [] then {} else (\<lambda>j. - int j - 1) ` {0..<length nei2})"
      by (rule outer_fold_nodes)
    then show ?thesis unfolding n0 by auto
  qed
  note oa = outer_fold_adj [of nei1 nei2 s 0 ?Ginit]
  have edges: "\<forall>i<length nei1. \<forall>j<length nei2.
        adj ?G (int i + 1, - int j - 1) = Some (1 / (profile_distance (s (nei1 ! i)) (s (nei2 ! j)) + 0.001)) \<and>
        adj ?G (- int j - 1, int i + 1) = Some (1 / (profile_distance (s (nei1 ! i)) (s (nei2 ! j)) + 0.001))"
    using oa by (simp add: bp_weight_def)
  have only: "\<forall>e. adj ?G e \<noteq> None \<longrightarrow>
        (\<exists>i<length nei1. \<exists>j<length nei2. e = (int i + 1, - int j - 1) \<or> e = (- int j - 1, int i + 1))"
  proof (intro allI impI)
    fix e assume ne: "adj ?G e \<noteq> None"
    show "\<exists>i<length nei1. \<exists>j<length nei2. e = (int i + 1, - int j - 1) \<or> e = (- int j - 1, int i + 1)"
    proof (rule ccontr)
      assume "\<not> ?thesis"
      then have "\<forall>m<length nei1. \<forall>j<length nei2.
            e \<noteq> (int (0 + m) + 1, - int j - 1) \<and> e \<noteq> (- int j - 1, int (0 + m) + 1)"
        by simp
      then have "adj ?G e = adj ?Ginit e" using oa by blast
      then show False using ne a0 by simp
    qed
  qed
  show ?thesis using run nodes edges only by blast
qed

lemma sum_squares_nonneg: "0 \<le> (\<Sum>y\<leftarrow>ys. (y::real)\<^sup>2)"
  by (induction ys) simp_all

lemma sqd_nonneg: "0 \<le> sqd u v"
  using sum_squares_nonneg by (induction u v rule: sqd.induct) simp_all

lemma sum_squares_zero_iff: "(\<Sum>y\<leftarrow>ys. y\<^sup>2) = 0 \<longleftrightarrow> (\<forall>y\<in>set ys. y = (0::real))"
proof (induction ys)
  case Nil
  then show ?case by simp
next
  case (Cons a ys)
  have "a\<^sup>2 + (\<Sum>y\<leftarrow>ys. y\<^sup>2) = 0 \<longleftrightarrow> a\<^sup>2 = 0 \<and> (\<Sum>y\<leftarrow>ys. y\<^sup>2) = 0"
    using sum_squares_nonneg [of ys] by (intro add_nonneg_eq_0_iff) simp_all
  then show ?case using Cons by simp
qed

lemma zeros_iff: "replicate (length ys) (0::real) = ys \<longleftrightarrow> (\<forall>y\<in>set ys. y = 0)"
  by (induction ys) auto

lemma sqd_zero_iff: "sqd u v = 0 \<longleftrightarrow> same_profile u v"
proof (induction u v rule: sqd.induct)
  case (1 ys)
  show ?case
    using zeros_iff [of ys] by (simp add: same_profile_def pad_to_def sum_squares_zero_iff)
next
  case (2 x xs)
  show ?case
    using zeros_iff [of "x # xs"] sum_squares_zero_iff [of "x # xs"]
    by (auto simp: same_profile_def pad_to_def)
next
  case (3 x xs y ys)
  have "(x - y)\<^sup>2 + sqd xs ys = 0 \<longleftrightarrow> x = y \<and> sqd xs ys = 0"
    using sqd_nonneg [of xs ys] add_nonneg_eq_0_iff [of "(x - y)\<^sup>2" "sqd xs ys"] by simp
  then show ?case using 3 by (simp add: same_profile_def pad_to_def)
qed

lemma profile_distance_zero_iff: "profile_distance u v = 0 \<longleftrightarrow> same_profile u v"
  by (simp add: profile_distance_sqd sqd_zero_iff)

lemma profile_distance_nonneg: "0 \<le> profile_distance u v"
  by (simp add: profile_distance_sqd sqd_nonneg)

lemma same_profile_refl: "same_profile u u"
  by (simp add: same_profile_def)

lemma closest_node_zero_ext:
  "closest_node s nl1 nl2 = Inr (s', r) \<Longrightarrow> zero_ext s s'"
proof (cases "nl2 = []")
  case True
  assume run: "closest_node s nl1 nl2 = Inr (s', r)"
  show ?thesis
  proof (cases nl1)
    case Nil
    with run show ?thesis by (simp add: closest_node_def zero_ext_refl)
  next
    case (Cons i "is")
    with run True show ?thesis by (simp add: closest_node_def)
  qed
next
  case False
  assume run: "closest_node s nl1 nl2 = Inr (s', r)"
  obtain s1 r1 where "cn_outer s nl1 nl2 0 [] = Inr (s1, [] @ r1)" "zero_ext s s1"
    using cn_outer_value [OF zero_ext_refl False, of s nl1 0 "[]"] by blast
  with run show ?thesis by (simp add: closest_node_def)
qed

text \<open>
  Claim C1, as the code has it. The pad-then-Euclidean step of \<open>closest_node\<close>
  (\<open>cn_dist\<close>) and of \<open>graphs2bipartite_weight\<close> (\<open>bp_dist\<close>) returns the distance of the
  two vectors zero-padded to the same length, and that distance is symmetric. The
  padding is done in place: after the step, the two stored vectors are padded with
  zeros to the longer of the two lengths and every other stored vector is as it was;
  after a whole call of either function, every stored vector is the vector the
  caller passed followed by zeros.
\<close>

theorem profile_distance_in_place:
  "snd (cn_dist s i j) = Inr (profile_distance (s i) (s j)) \<and>
   snd (bp_dist s i j) = Inr (profile_distance (s i) (s j)) \<and>
   snd (cn_dist s i j) = snd (cn_dist s j i) \<and>
   snd (bp_dist s i j) = snd (bp_dist s j i) \<and>
   (\<forall>a. fst (cn_dist s i j) a =
      (if a = i \<or> a = j then pad_to (max (length (s i)) (length (s j))) (s a) else s a)) \<and>
   (\<forall>a. fst (bp_dist s i j) a =
      (if a = i \<or> a = j then pad_to (max (length (s i)) (length (s j))) (s a) else s a)) \<and>
   (\<forall>s' r. closest_node s nl1 nl2 = Inr (s', r) \<longrightarrow> zero_ext s s') \<and>
   (\<forall>s' G. graphs2bipartite_weight s nl1 nl2 = Inr (s', G) \<longrightarrow> zero_ext s s')"
proof -
  have sym: "profile_distance (s i) (s j) = profile_distance (s j) (s i)"
    by (rule profile_distance_sym)
  have bp: "\<forall>s' G. graphs2bipartite_weight s nl1 nl2 = Inr (s', G) \<longrightarrow> zero_ext s s'"
    using graphs2bipartite_weight_value [of s nl1 nl2] by auto
  show ?thesis
    using sym bp closest_node_zero_ext
    by (simp add: cn_dist_eq bp_dist_eq cn_pad_at)
qed

text \<open>
  The theorem at the vectors \<open>[3]\<close> and \<open>[3, 1]\<close>: distance 1 in both orders, the
  shorter vector stored as \<open>[3, 0]\<close> afterwards.
\<close>

theorem profile_distance_in_place_witness:
  "snd (cn_dist ((\<lambda>a::nat. [])(0 := [3], 1 := [3, 1])) 0 1) = Inr 1 \<and>
   snd (cn_dist ((\<lambda>a::nat. [])(0 := [3], 1 := [3, 1])) 1 0) = Inr 1 \<and>
   fst (cn_dist ((\<lambda>a::nat. [])(0 := [3], 1 := [3, 1])) 0 1) 0 = [3, 0] \<and>
   closest_node ((\<lambda>a::nat. [])(0 := [3], 1 := [3, 1])) [0] [1]
     = Inr (((\<lambda>a::nat. [])(0 := [3], 1 := [3, 1]))(0 := [3, 0]), [(0, 0)]) \<and>
   zero_ext ((\<lambda>a::nat. [])(0 := [3], 1 := [3, 1])) (((\<lambda>a::nat. [])(0 := [3], 1 := [3, 1]))(0 := [3, 0])) \<and>
   (\<exists>s' G. graphs2bipartite_weight ((\<lambda>a::nat. [])(0 := [3], 1 := [3, 1])) [0] [1] = Inr (s', G) \<and>
      zero_ext ((\<lambda>a::nat. [])(0 := [3], 1 := [3, 1])) s')"
proof -
  let ?s = "(\<lambda>a::nat. [])(0 := [3::real], 1 := [3, 1])"
  note inst = profile_distance_in_place [of ?s 0 1 "[0]" "[1]"]
  have pd: "profile_distance (?s 0) (?s 1) = 1"
    by (simp add: profile_distance_def pad_to_def)
  have run: "closest_node ?s [0] [1] = Inr (?s(0 := [3, 0]), [(0, 0)])"
    by (simp add: closest_node_def cn_dist_def cn_pad_def append_zeros_def euclidean_def)
  obtain s' G where bp: "graphs2bipartite_weight ?s [0] [1] = Inr (s', G)"
    using graphs2bipartite_weight_value [of ?s "[0]" "[1]"] by blast
  have "zero_ext ?s s'" using inst bp by blast
  moreover have "zero_ext ?s (?s(0 := [3, 0]))" using inst run by blast
  moreover have d01: "snd (cn_dist ?s 0 1) = Inr 1" using inst pd by simp
  moreover have "snd (cn_dist ?s 1 0) = Inr 1"
  proof -
    have "snd (cn_dist ?s 0 1) = snd (cn_dist ?s 1 0)" using inst by blast
    then show ?thesis using d01 by simp
  qed
  moreover have "fst (cn_dist ?s 0 1) 0 = [3, 0]" using inst by (simp add: pad_to_def)
  ultimately show ?thesis using run bp by blast
qed

text \<open>
  Claim C1 as stated fails: the caller's vector \<open>[3]\<close> is \<open>[3, 0]\<close> after one comparison
  with \<open>[3, 1]\<close>, and after the call \<open>closest_node([[3]], [[3, 1]])\<close>.
\<close>

theorem profile_padding_counterexample:
  "((\<lambda>a::nat. [])(0 := [3], 1 := [3, 1])) 0 = [3::real] \<and>
   fst (cn_dist ((\<lambda>a::nat. [])(0 := [3], 1 := [3, 1])) 0 1) 0 = [3, 0] \<and>
   fst (bp_dist ((\<lambda>a::nat. [])(0 := [3], 1 := [3, 1])) 0 1) 0 = [3, 0] \<and>
   closest_node ((\<lambda>a::nat. [])(0 := [3], 1 := [3, 1])) [0] [1]
     = Inr (((\<lambda>a::nat. [])(0 := [3], 1 := [3, 1]))(0 := [3, 0]), [(0, 0)])"
  by (simp add: closest_node_def cn_dist_def cn_pad_def bp_dist_def bp_pad_def
      append_zeros_def euclidean_def)

text \<open>
  Claim C6, as the code has it. \<open>closest_node(nl, nl)\<close> returns one pair \<open>[i, k]\<close> for
  every index \<open>i\<close>, where \<open>k\<close> is the first index whose profile is the same as
  profile \<open>i\<close> up to trailing zeros; so \<open>k \<le> i\<close>, and every node is mapped to itself
  when no two profiles of \<open>nl\<close> are the same up to trailing zeros.
\<close>

theorem closest_node_self:
  "\<exists>s' r. closest_node s nl nl = Inr (s', r) \<and> length r = length nl \<and>
     (\<forall>i<length nl. \<exists>k\<le>i. r ! i = (i, k) \<and> same_profile (s (nl ! i)) (s (nl ! k)) \<and>
        (\<forall>j<k. \<not> same_profile (s (nl ! i)) (s (nl ! j)))) \<and>
     ((\<forall>i<length nl. \<forall>j<i. \<not> same_profile (s (nl ! i)) (s (nl ! j))) \<longrightarrow>
        r = map (\<lambda>i. (i, i)) [0..<length nl])"
proof (cases "nl = []")
  case True
  then show ?thesis by (simp add: closest_node_def)
next
  case False
  obtain s' r where run: "cn_outer s nl nl 0 [] = Inr (s', [] @ r)" and len: "length r = length nl"
    and each: "\<forall>n<length nl. \<exists>k. r ! n = (0 + n, k) \<and>
        first_min (map (\<lambda>j. profile_distance (s (nl ! n)) (s j)) nl) k"
    using cn_outer_value [OF zero_ext_refl False, of s nl 0 "[]"] by blast
  have main: "\<forall>i<length nl. \<exists>k\<le>i. r ! i = (i, k) \<and> same_profile (s (nl ! i)) (s (nl ! k)) \<and>
        (\<forall>j<k. \<not> same_profile (s (nl ! i)) (s (nl ! j)))"
  proof (intro allI impI)
    fix i assume i: "i < length nl"
    let ?dl = "map (\<lambda>j. profile_distance (s (nl ! i)) (s j)) nl"
    obtain k where k: "r ! i = (i, k)" "first_min ?dl k"
      using each i by auto
    have kl: "k < length nl"
      using k(2) by (simp add: first_min_def)
    have dk_le: "profile_distance (s (nl ! i)) (s (nl ! k)) \<le> profile_distance (s (nl ! i)) (s (nl ! i))"
      using k(2) kl i by (simp add: first_min_def)
    have first: "\<forall>j<k. profile_distance (s (nl ! i)) (s (nl ! j)) \<noteq> profile_distance (s (nl ! i)) (s (nl ! k))"
    proof (intro allI impI)
      fix j assume j: "j < k"
      then have jl: "j < length nl" using kl by simp
      have "?dl ! j \<noteq> ?dl ! k" using k(2) j by (simp add: first_min_def del: nth_map)
      then show "profile_distance (s (nl ! i)) (s (nl ! j)) \<noteq> profile_distance (s (nl ! i)) (s (nl ! k))"
        using jl kl by simp
    qed
    have di: "profile_distance (s (nl ! i)) (s (nl ! i)) = 0"
      by (simp add: profile_distance_zero_iff same_profile_refl)
    have dk: "profile_distance (s (nl ! i)) (s (nl ! k)) = 0"
      using dk_le di profile_distance_nonneg [of "s (nl ! i)" "s (nl ! k)"] by simp
    have ki: "k \<le> i"
    proof (rule ccontr)
      assume "\<not> k \<le> i"
      then have "i < k" by simp
      then have "profile_distance (s (nl ! i)) (s (nl ! i)) \<noteq> profile_distance (s (nl ! i)) (s (nl ! k))"
        using first by blast
      then show False using di dk by simp
    qed
    have same: "same_profile (s (nl ! i)) (s (nl ! k))"
      using dk by (simp add: profile_distance_zero_iff)
    have before: "\<forall>j<k. \<not> same_profile (s (nl ! i)) (s (nl ! j))"
    proof (intro allI impI)
      fix j assume j: "j < k"
      then have "profile_distance (s (nl ! i)) (s (nl ! j)) \<noteq> 0" using first dk by metis
      then show "\<not> same_profile (s (nl ! i)) (s (nl ! j))"
        by (simp add: profile_distance_zero_iff)
    qed
    show "\<exists>k\<le>i. r ! i = (i, k) \<and> same_profile (s (nl ! i)) (s (nl ! k)) \<and>
        (\<forall>j<k. \<not> same_profile (s (nl ! i)) (s (nl ! j)))"
      using k(1) ki same before by blast
  qed
  have diag: "(\<forall>i<length nl. \<forall>j<i. \<not> same_profile (s (nl ! i)) (s (nl ! j))) \<longrightarrow>
        r = map (\<lambda>i. (i, i)) [0..<length nl]"
  proof
    assume d: "\<forall>i<length nl. \<forall>j<i. \<not> same_profile (s (nl ! i)) (s (nl ! j))"
    show "r = map (\<lambda>i. (i, i)) [0..<length nl]"
    proof (rule nth_equalityI)
      show "length r = length (map (\<lambda>i. (i, i)) [0..<length nl])" using len by simp
    next
      fix i assume "i < length r"
      then have i: "i < length nl" using len by simp
      obtain k where k: "k \<le> i" "r ! i = (i, k)" "same_profile (s (nl ! i)) (s (nl ! k))"
        using main i by blast
      have "k = i"
      proof (rule ccontr)
        assume "k \<noteq> i"
        then have "k < i" using k(1) by simp
        then show False using d i k(3) by blast
      qed
      then show "r ! i = map (\<lambda>i. (i, i)) [0..<length nl] ! i" using k(2) i by simp
    qed
  qed
  show ?thesis using run len main diag by (simp add: closest_node_def)
qed

text \<open>
  The theorem at the profiles \<open>[2, 1]\<close> and \<open>[3]\<close>: each node is its own closest node.
\<close>

theorem closest_node_self_witness:
  "\<exists>s'. closest_node ((\<lambda>a::nat. [])(0 := [2, 1], 1 := [3])) [0, 1] [0, 1] = Inr (s', [(0, 0), (1, 1)])"
proof -
  let ?s = "(\<lambda>a::nat. [])(0 := [2::real, 1], 1 := [3])"
  have d: "\<forall>i<length [0::nat, 1]. \<forall>j<i. \<not> same_profile (?s ([0, 1] ! i)) (?s ([0, 1] ! j))"
    by (simp add: same_profile_def pad_to_def less_Suc_eq)
  obtain s' r where r: "closest_node ?s [0, 1] [0, 1] = Inr (s', r)"
      "(\<forall>i<length [0::nat, 1]. \<forall>j<i. \<not> same_profile (?s ([0, 1] ! i)) (?s ([0, 1] ! j))) \<longrightarrow>
        r = map (\<lambda>i. (i, i)) [0..<length [0::nat, 1]]"
    using closest_node_self [of ?s "[0, 1]"] by blast
  have "r = [(0, 0), (1, 1)]" using r(2) d by (simp add: upt_rec)
  then show ?thesis using r(1) by blast
qed

text \<open>
  Claim C6 as stated fails: with the profiles \<open>[[1], [1]]\<close> node 1 is mapped to node 0,
  the first of the two minima, and the pair \<open>[1, 1]\<close> is not in the result.
\<close>

theorem closest_node_self_counterexample:
  "closest_node ((\<lambda>a::nat. [])(0 := [1], 1 := [1])) [0, 1] [0, 1]
     = Inr ((\<lambda>a::nat. [])(0 := [1], 1 := [1]), [(0, 0), (1, 0)]) \<and>
   (1, 1) \<notin> set [(0::nat, 0::nat), (1, 0)]"
  by (simp add: closest_node_def cn_dist_def cn_pad_def euclidean_def)

text \<open>
  The theorem at \<open>nei1 = [[3]]\<close> and \<open>nei2 = [[3, 1]]\<close>: nodes 1 and -1, and the edge of
  weight \<open>1/1.001\<close>.
\<close>

theorem bipartite_weight_complete_witness:
  "\<exists>s' G. graphs2bipartite_weight ((\<lambda>a::nat. [])(0 := [3], 1 := [3, 1])) [0] [1] = Inr (s', G) \<and>
     nodes G = {1, - 1} \<and> adj G (1, - 1) = Some (1000 / 1001) \<and> adj G (- 1, 1) = Some (1000 / 1001)"
proof -
  let ?s = "(\<lambda>a::nat. [])(0 := [3::real], 1 := [3, 1])"
  have pd: "profile_distance (?s 0) (?s 1) = 1"
    by (simp add: profile_distance_def pad_to_def)
  obtain s' G where g: "graphs2bipartite_weight ?s [0] [1] = Inr (s', G)"
    "nodes G = (\<lambda>i. int i + 1) ` {0..<length [0::nat]} \<union> (\<lambda>j. - int j - 1) ` {0..<length [1::nat]}"
    "\<forall>i<length [0::nat]. \<forall>j<length [1::nat].
        adj G (int i + 1, - int j - 1) = Some (1 / (profile_distance (?s ([0] ! i)) (?s ([1] ! j)) + 0.001)) \<and>
        adj G (- int j - 1, int i + 1) = Some (1 / (profile_distance (?s ([0] ! i)) (?s ([1] ! j)) + 0.001))"
    using bipartite_weight_complete [of ?s "[0]" "[1]"] by blast
  have "nodes G = {1, - 1}" using g(2) by auto
  moreover have "adj G (1, - 1) = Some (1000 / 1001) \<and> adj G (- 1, 1) = Some (1000 / 1001)"
    using g(3) pd by simp
  ultimately show ?thesis using g(1) by blast
qed

end
